theory Spec2Isabelle
  imports Complex_Main
begin

section \<open>The typing game: data model\<close>

text \<open>
  The component \<open>TypingGame\<close> keeps one \<open>GameState\<close> value (React state) and three
  mutable references: the time of the last spawn, the set of recently used words and the
  measured play area. Numbers of the source are JavaScript numbers. \<open>score\<close>,
  \<open>level\<close> and \<open>lives\<close> only ever hold integers and are modelled as \<open>int\<close>
  (exact in the source below \<open>2^53\<close>); positions and speeds are modelled as \<open>real\<close>
  (the values the game produces for \<open>y\<close> and \<open>speed\<close> are multiples of one half,
  which the source's doubles hold exactly). Strings are sequences of 8-bit characters,
  read as the code points 0 to 255 (Latin-1); the case mapping and the white space of
  the source are modelled on that range. The word bank is ASCII.
\<close>

record Word =
  w_id :: string
  w_text :: string
  w_x :: real
  w_y :: real
  w_speed :: real
  w_matched :: string

record GameState =
  isPlaying :: bool
  isGameOver :: bool
  score :: int
  level :: int
  lives :: int
  words :: "Word list"
  currentInput :: string

text \<open>
  The component: its committed state, its references, and what the host holds for it.
  \<open>recentlyUsedWords\<close> is a JavaScript \<open>Set\<close>, which iterates in insertion order: it
  is a list without duplicates, oldest entry first. \<open>gameLoopRef\<close> holds the id of the
  frame requested last (\<open>None\<close> for \<open>undefined\<close>). \<open>rendered\<close> is the \<open>gameState\<close> of the
  last render, the value that the closures made in that render read. \<open>frames\<close> are the
  animation frame callbacks the browser holds: the id of each request and the rendered
  state that its \<open>gameLoop\<close> closure captured. \<open>nextFrameId\<close> is the id the browser
  hands out next.
\<close>

record Component =
  gameState :: GameState
  lastWordSpawnRef :: int
  recentlyUsedWords :: "string list"
  gameLoopRef :: "nat option"
  rendered :: GameState
  frames :: "(nat \<times> GameState) list"
  nextFrameId :: nat

text \<open>
  The calls of \<open>toast.success\<close> and \<open>toast.error\<close>, one constructor for each
  message of the source, with the value the message interpolates.
\<close>

datatype toast =
    ReachedBase string
  | AllLivesLost
  | LevelUp int
  | Points int
  | WordNotFound
  | GameStarted

datatype toast_kind = Success | Error

fun kind_of :: "toast \<Rightarrow> toast_kind" where
  "kind_of (ReachedBase t) = Error"
| "kind_of AllLivesLost = Error"
| "kind_of (LevelUp n) = Success"
| "kind_of (Points n) = Success"
| "kind_of WordNotFound = Error"
| "kind_of GameStarted = Success"

datatype js_error = TypeError

text \<open>The values drawn from \<open>Math.random()\<close> by one call of \<open>spawnWord\<close>.\<close>

record Random =
  r_id :: string
  r_word :: real
  r_x :: real

section \<open>Strings and arrays of the host language\<close>

text \<open>
  \<open>toLowerCase\<close> changes the letters A to Z and, above ASCII, the capital letters
  192 to 222 other than the multiplication sign 215. \<open>trim\<close> strips tab, line feed,
  vertical tab, form feed, carriage return, space and the no-break space 160.
\<close>

definition toLowerCase_char :: "char \<Rightarrow> char" where
  "toLowerCase_char c =
     (let n = (of_char c :: nat) in
      if (65 \<le> n \<and> n \<le> 90) \<or> (192 \<le> n \<and> n \<le> 222 \<and> n \<noteq> 215)
      then char_of (n + 32) else c)"

definition toLowerCase :: "string \<Rightarrow> string" where
  "toLowerCase s = map toLowerCase_char s"

definition isWhiteSpace :: "char \<Rightarrow> bool" where
  "isWhiteSpace c = ((of_char c :: nat) \<in> {9, 10, 11, 12, 13, 32, 160})"

definition trim :: "string \<Rightarrow> string" where
  "trim s = rev (dropWhile isWhiteSpace (rev (dropWhile isWhiteSpace s)))"

definition startsWith :: "string \<Rightarrow> string \<Rightarrow> bool" where
  "startsWith s p = (take (length p) s = p)"

text \<open>Reading an array at an index: \<open>undefined\<close> (here \<open>None\<close>) out of range.\<close>

definition index :: "'a list \<Rightarrow> int \<Rightarrow> 'a option" where
  "index xs i = (if 0 \<le> i \<and> i < int (length xs) then Some (xs ! nat i) else None)"

text \<open>The operations of \<open>Set\<close> on the insertion-ordered representation.\<close>

definition Set_add :: "'a \<Rightarrow> 'a list \<Rightarrow> 'a list" where
  "Set_add v s = (if v \<in> set s then s else s @ [v])"

definition Set_delete :: "'a \<Rightarrow> 'a list \<Rightarrow> 'a list" where
  "Set_delete v s = removeAll v s"

section \<open>The word bank\<close>

definition WORD_LISTS :: "string list list" where
  "WORD_LISTS =
    [[''cat'', ''dog'', ''run'', ''jump'', ''fast'', ''slow'', ''big'', ''small'', ''hot'',
      ''cold'', ''red'', ''blue'', ''good'', ''bad'', ''new'', ''old'', ''yes'', ''no'', ''up'',
      ''down'', ''in'', ''out'', ''on'', ''off'', ''top'', ''end'', ''man'', ''boy'', ''girl'',
      ''car'', ''bus'', ''sun'', ''moon'', ''day'', ''year'', ''way'', ''may'', ''say'', ''play'',
      ''try'', ''why'', ''how'', ''now'', ''low'', ''show'', ''know'', ''grow'', ''flow'',
      ''blow'', ''snow''],
     [''house'', ''computer'', ''keyboard'', ''monitor'', ''window'', ''button'', ''screen'',
      ''music'', ''phone'', ''table'', ''chair'', ''water'', ''coffee'', ''orange'', ''purple'',
      ''yellow'', ''green'', ''black'', ''white'', ''brown'', ''happy'', ''angry'', ''tired'',
      ''hungry'', ''thirsty'', ''sleepy'', ''funny'', ''smart'', ''brave'', ''quick'', ''quiet'',
      ''loud'', ''bright'', ''dark'', ''clean'', ''dirty'', ''empty'', ''full'', ''open'',
      ''close'', ''start'', ''finish'', ''begin''],
     [''beautiful'', ''dangerous'', ''fantastic'', ''incredible'', ''mysterious'', ''wonderful'',
      ''important'', ''different'', ''possible'', ''terrible'', ''amazing'', ''excellent'',
      ''brilliant'', ''creative'', ''exciting'', ''fantastic'', ''generous'', ''hilarious'',
      ''innovative'', ''jealous'', ''knowledge'', ''language'', ''mountain'', ''necessary'',
      ''obvious'', ''peaceful'', ''question'', ''remember'', ''sandwich'', ''together'',
      ''umbrella'', ''vacation'', ''welcome'', ''yesterday'', ''zebra''],
     [''extraordinary'', ''incomprehensible'', ''responsibility'', ''characteristics'',
      ''simultaneously'', ''internationally'', ''representative'', ''administration'',
      ''communication'', ''entertainment'', ''investigation'', ''manufacturing'',
      ''understanding'', ''environmental'', ''revolutionary'', ''technological'',
      ''philosophical'', ''psychological'', ''archaeological'', ''astronomical'',
      ''mathematical'', ''geographical'', ''biographical'', ''alphabetical'', ''mechanical'',
      ''electrical'', ''chemical'', ''physical'', ''musical'', ''magical'']]"

text \<open>
  The two filters of \<open>getRandomWord\<close>, under the names of its local constants.
  \<open>currentWordTexts\<close> is only asked for membership, so a list stands for that set.
\<close>

definition currentWordTexts :: "Word list \<Rightarrow> string list" where
  "currentWordTexts currentWords = map (\<lambda>w. toLowerCase (w_text w)) currentWords"

definition availableWords :: "string list \<Rightarrow> Word list \<Rightarrow> string list \<Rightarrow> string list" where
  "availableWords wl currentWords recentlyUsed =
     filter (\<lambda>word. toLowerCase word \<notin> set (currentWordTexts currentWords) \<and>
                     toLowerCase word \<notin> set recentlyUsed) wl"

definition freshAvailableWords :: "string list \<Rightarrow> Word list \<Rightarrow> string list" where
  "freshAvailableWords wl currentWords =
     filter (\<lambda>word. toLowerCase word \<notin> set (currentWordTexts currentWords)) wl"

text \<open>
  \<open>getRandomWord level currentWords\<close>, with the set of recently used words passed in
  and returned, and the value \<open>rnd\<close> of \<open>Math.random()\<close> as an argument. The result
  \<open>None\<close> is the \<open>undefined\<close> read from an empty array in the fallback path.
  \<open>TypeError\<close> is raised where the source calls a method on \<open>undefined\<close>: on the word
  list when \<open>level - 1\<close> is negative, and on the selected word when the index is out of
  range (which no \<open>rnd\<close> in \<open>[0, 1)\<close> produces).
\<close>

definition wordList :: "int \<Rightarrow> string list option" where
  "wordList lvl = index WORD_LISTS (min (lvl - 1) (int (length WORD_LISTS) - 1))"

definition getRandomWord ::
  "int \<Rightarrow> Word list \<Rightarrow> string list \<Rightarrow> real \<Rightarrow> js_error + (string option \<times> string list)" where
  "getRandomWord lvl currentWords recentlyUsed rnd =
     (case wordList lvl of
        None \<Rightarrow> Inl TypeError
      | Some wl \<Rightarrow>
          let available = availableWords wl currentWords recentlyUsed in
          if length available = 0 then
            let fresh = freshAvailableWords wl currentWords in
            Inr (index fresh \<lfloor>rnd * real (length fresh)\<rfloor>, [])
          else
            (case index available \<lfloor>rnd * real (length available)\<rfloor> of
               None \<Rightarrow> Inl TypeError
             | Some selectedWord \<Rightarrow>
                 let added = Set_add (toLowerCase selectedWord) recentlyUsed in
                 Inr (Some selectedWord,
                      if length added > 20 then
                        (case added of [] \<Rightarrow> added | firstWord # rest \<Rightarrow> Set_delete firstWord added)
                      else added)))"

section \<open>The game loop\<close>

text \<open>
  \<open>spawnWord\<close>: the argument \<open>area\<close> is \<open>gameAreaRef.current\<close>, either missing or an
  element with its \<open>clientWidth\<close> and \<open>clientHeight\<close>. When the word bank returns
  \<open>undefined\<close> the source stores it as the text of the new word, against the
  declaration \<open>text: string\<close>, and the render that follows raises a \<open>TypeError\<close> on
  \<open>word.text.substring\<close>; the model reports that error here.
\<close>

definition spawnWord ::
  "(int \<times> int) option \<Rightarrow> Random \<Rightarrow> Component \<Rightarrow> js_error + Component" where
  "spawnWord area rnd c =
     (case area of
        None \<Rightarrow> Inr c
      | Some (gameWidth, gameHeight) \<Rightarrow>
          let prev = gameState c in
          (case getRandomWord (level prev) (words prev) (recentlyUsedWords c) (r_word rnd) of
             Inl e \<Rightarrow> Inl e
           | Inr (None, recent) \<Rightarrow> Inl TypeError
           | Inr (Some t, recent) \<Rightarrow>
               let newWord = \<lparr> w_id = r_id rnd, w_text = t,
                               w_x = r_x rnd * (real_of_int gameWidth - 100),
                               w_y = - 50,
                               w_speed = 1 + (real_of_int (level prev) * 0.5),
                               w_matched = [] \<rparr>
               in Inr (c\<lparr> gameState := prev\<lparr> words := words prev @ [newWord] \<rparr>,
                         recentlyUsedWords := recent \<rparr>)))"

definition updatedWords :: "GameState \<Rightarrow> Word list" where
  "updatedWords prev = map (\<lambda>word. word\<lparr> w_y := w_y word + w_speed word \<rparr>) (words prev)"

definition wordsAtBase :: "int \<Rightarrow> GameState \<Rightarrow> Word list" where
  "wordsAtBase gameHeight prev =
     filter (\<lambda>word. w_y word \<ge> real_of_int (gameHeight - 100)) (updatedWords prev)"

definition activeWords :: "int \<Rightarrow> GameState \<Rightarrow> Word list" where
  "activeWords gameHeight prev =
     filter (\<lambda>word. w_y word < real_of_int (gameHeight - 100)) (updatedWords prev)"

definition updateWords :: "(int \<times> int) option \<Rightarrow> GameState \<Rightarrow> GameState \<times> toast list" where
  "updateWords area prev =
     (case area of
        None \<Rightarrow> (prev, [])
      | Some (gameWidth, gameHeight) \<Rightarrow>
          let atBase = wordsAtBase gameHeight prev in
          if length atBase > 0 then
            let newLives = max 0 (lives prev - int (length atBase));
                reached = map (\<lambda>word. ReachedBase (w_text word)) atBase
            in if newLives \<le> 0 then
                 (prev\<lparr> isPlaying := False, isGameOver := True, words := [], lives := 0 \<rparr>,
                  reached @ [AllLivesLost])
               else
                 (prev\<lparr> words := activeWords gameHeight prev, lives := newLives \<rparr>, reached)
          else
            (prev\<lparr> words := activeWords gameHeight prev, lives := lives prev \<rparr>, []))"

definition getSpawnRate :: "int \<Rightarrow> real" where
  "getSpawnRate lvl =
     (let baseRate = 2000;
          levelMultiplier = 1 - (real_of_int (lvl - 1) * 0.2)
      in max (baseRate * levelMultiplier) 500)"

text \<open>
  The two calls of the browser that schedule and cancel a frame. Both places of the
  source that request a frame store the id in \<open>gameLoopRef\<close>, so the request here does
  it too; its argument is the rendered state captured by the \<open>gameLoop\<close> it schedules.
\<close>

definition requestAnimationFrame :: "GameState \<Rightarrow> Component \<Rightarrow> Component" where
  "requestAnimationFrame g c =
     c\<lparr> gameLoopRef := Some (nextFrameId c),
        frames := frames c @ [(nextFrameId c, g)],
        nextFrameId := nextFrameId c + 1 \<rparr>"

definition cancelAnimationFrame :: "nat \<Rightarrow> Component \<Rightarrow> Component" where
  "cancelAnimationFrame i c = c\<lparr> frames := filter (\<lambda>f. fst f \<noteq> i) (frames c) \<rparr>"

text \<open>
  One run of \<open>gameLoop\<close> at time \<open>now\<close>. The level for the spawn rate and the flag for
  the next request are read from the rendered state \<open>g\<close> of the closure, however old; the
  two state updates run, in the order they were queued, on the committed state.
\<close>

definition gameLoop ::
  "int \<Rightarrow> (int \<times> int) option \<Rightarrow> Random \<Rightarrow> GameState \<Rightarrow> Component \<Rightarrow>
     js_error + (Component \<times> toast list)" where
  "gameLoop now area rnd g c =
     (let spawnRate = getSpawnRate (level g) in
      case (if real_of_int (now - lastWordSpawnRef c) > spawnRate
            then (case spawnWord area rnd c of
                    Inl e \<Rightarrow> Inl e
                  | Inr c0 \<Rightarrow> Inr (c0\<lparr> lastWordSpawnRef := now \<rparr>))
            else Inr c) of
        Inl e \<Rightarrow> Inl e
      | Inr c1 \<Rightarrow>
          let (s', ts) = updateWords area (gameState c1);
              c2 = c1\<lparr> gameState := s' \<rparr>
          in Inr (if isPlaying g then requestAnimationFrame g c2 else c2, ts))"

section \<open>Input\<close>

definition handleInputChange :: "string \<Rightarrow> GameState \<Rightarrow> GameState" where
  "handleInputChange v prev =
     (let newWords = map (\<lambda>word.
            if startsWith (toLowerCase (w_text word)) (toLowerCase v) \<and> length v > 0
            then word\<lparr> w_matched := v \<rparr>
            else word\<lparr> w_matched := [] \<rparr>) (words prev)
      in prev\<lparr> currentInput := v, words := newWords \<rparr>)"

definition isTarget :: "GameState \<Rightarrow> Word \<Rightarrow> bool" where
  "isTarget g word = (toLowerCase (w_text word) = trim (toLowerCase (currentInput g)))"

text \<open>
  \<open>handleKeyPress\<close> reads the rendered state \<open>g\<close> of its closure (for the key test, the
  search and the points) and queues an update that runs on the committed state
  \<open>prev\<close>. The result is the updated state and the toasts of the call.
\<close>

definition handleKeyPress :: "string \<Rightarrow> GameState \<Rightarrow> GameState \<Rightarrow> GameState \<times> toast list" where
  "handleKeyPress key g prev =
     (if key = ''Enter'' \<and> trim (currentInput g) \<noteq> [] then
        (case find (isTarget g) (words g) of
           Some targetWord \<Rightarrow>
             let points = int (length (w_text targetWord)) * 10 * level g;
                 newScore = score prev + points;
                 newLevel = newScore div 1000 + 1
             in (prev\<lparr> words := filter (\<lambda>word. w_id word \<noteq> w_id targetWord) (words prev),
                        score := newScore, level := newLevel, currentInput := [] \<rparr>,
                 (if newLevel > level prev then [LevelUp newLevel] else []) @ [Points points])
         | None \<Rightarrow> (prev\<lparr> currentInput := [] \<rparr>, [WordNotFound]))
      else (prev, []))"

section \<open>Session control\<close>

definition initial :: Component where
  "initial = \<lparr> gameState = \<lparr> isPlaying = False, isGameOver = False, score = 0, level = 1,
                               lives = 3, words = [], currentInput = [] \<rparr>,
               lastWordSpawnRef = 0, recentlyUsedWords = [], gameLoopRef = None,
               rendered = \<lparr> isPlaying = False, isGameOver = False, score = 0, level = 1,
                              lives = 3, words = [], currentInput = [] \<rparr>,
               frames = [], nextFrameId = 1 \<rparr>"

definition startGame :: "int \<Rightarrow> Component \<Rightarrow> Component \<times> toast list" where
  "startGame now c =
     (c\<lparr> gameState := \<lparr> isPlaying = True, isGameOver = False, score = 0, level = 1,
                         lives = 3, words = [], currentInput = [] \<rparr>,
         lastWordSpawnRef := now \<rparr>,
      [GameStarted])"

definition resetGame :: "GameState \<Rightarrow> GameState" where
  "resetGame prev = prev\<lparr> isPlaying := False, isGameOver := False, words := [], currentInput := [] \<rparr>"

section \<open>The effect that drives the frames\<close>

text \<open>
  The effect of the component, in its two parts. \<open>cleanup\<close> is the function the effect
  returns: it cancels the frame whose id \<open>gameLoopRef\<close> holds, when that id is truthy.
  \<open>useEffect\<close> is its body, run with the state just rendered: while playing it requests
  a frame for the \<open>gameLoop\<close> of that render.
\<close>

definition cleanup :: "Component \<Rightarrow> Component" where
  "cleanup c =
     (case gameLoopRef c of
        None \<Rightarrow> c
      | Some i \<Rightarrow> if i \<noteq> 0 then cancelAnimationFrame i c else c)"

definition useEffect :: "Component \<Rightarrow> Component" where
  "useEffect c = (if isPlaying (rendered c) then requestAnimationFrame (rendered c) c else c)"

text \<open>
  \<open>commit\<close> is the render that follows a change of state, with its effects. The
  dependencies of the effect are \<open>gameState.isPlaying\<close> and \<open>gameLoop\<close>, and \<open>gameLoop\<close> is
  made anew exactly when \<open>isPlaying\<close> or \<open>level\<close> differ from the render before (its other
  dependencies never change). When they differ the cleanup of the old effect runs,
  then the body of the new one.
\<close>

definition commit :: "Component \<Rightarrow> Component" where
  "commit c =
     (let old = rendered c;
          c1 = c\<lparr> rendered := gameState c \<rparr>
      in if isPlaying (gameState c) \<noteq> isPlaying old \<or> level (gameState c) \<noteq> level old
         then useEffect (cleanup c1)
         else c1)"

text \<open>
  The browser runs an animation frame: the callbacks it holds are taken off its list
  and called in order; what they request goes to the next frame.
\<close>

fun runFrames ::
  "int \<Rightarrow> (int \<times> int) option \<Rightarrow> Random \<Rightarrow> (nat \<times> GameState) list \<Rightarrow> Component \<Rightarrow>
     js_error + (Component \<times> toast list)" where
  "runFrames now area rnd [] c = Inr (c, [])"
| "runFrames now area rnd (f # fs) c =
     (case gameLoop now area rnd (snd f) c of
        Inl e \<Rightarrow> Inl e
      | Inr (c1, ts) \<Rightarrow>
          (case runFrames now area rnd fs c1 of
             Inl e \<Rightarrow> Inl e
           | Inr (c2, ts') \<Rightarrow> Inr (c2, ts @ ts')))"

text \<open>
  The events the component reacts to: the two buttons, an animation frame of the
  browser at time \<open>now\<close> (with the play area as measured then and the random draws of
  that frame), a change of the input text and a key press. No event tests the state
  before it runs: a frame calls whatever callbacks are scheduled, and the handlers
  read the state of the last render. Each event ends with the commit of the state it
  produced, before the next event is taken.
\<close>

datatype event =
    Start int
  | Reset
  | Frame int "(int \<times> int) option" Random
  | InputChange string
  | KeyPress string

fun step :: "event \<Rightarrow> Component \<Rightarrow> js_error + (Component \<times> toast list)" where
  "step (Start now) c = (let (c1, ts) = startGame now c in Inr (commit c1, ts))"
| "step Reset c = Inr (commit (c\<lparr> gameState := resetGame (gameState c) \<rparr>), [])"
| "step (Frame now area rnd) c =
     (case runFrames now area rnd (frames c) (c\<lparr> frames := [] \<rparr>) of
        Inl e \<Rightarrow> Inl e
      | Inr (c1, ts) \<Rightarrow> Inr (commit c1, ts))"
| "step (InputChange v) c =
     Inr (commit (c\<lparr> gameState := handleInputChange v (gameState c) \<rparr>), [])"
| "step (KeyPress key) c =
     (let (s', ts) = handleKeyPress key (rendered c) (gameState c)
      in Inr (commit (c\<lparr> gameState := s' \<rparr>), ts))"

fun run :: "event list \<Rightarrow> Component \<Rightarrow> js_error + (Component \<times> toast list)" where
  "run [] c = Inr (c, [])"
| "run (e # es) c =
     (case step e c of
        Inl err \<Rightarrow> Inl err
      | Inr (c', ts) \<Rightarrow>
          (case run es c' of Inl err \<Rightarrow> Inl err | Inr (c'', ts') \<Rightarrow> Inr (c'', ts @ ts')))"



datatype Phase = Idle | Playing | GameOver

definition phase :: "GameState \<Rightarrow> Phase option" where
  "phase s =
     (if isPlaying s \<and> isGameOver s then None
      else if isGameOver s then Some GameOver
      else if isPlaying s then Some Playing
      else Some Idle)"

section \<open>Notions of the specification and example states\<close>

text \<open>
  The specification's "case-insensitive prefix", written from its words: the input is no
  longer than the text, and agrees with it character by character up to case.
\<close>

definition ci_prefix :: "string \<Rightarrow> string \<Rightarrow> bool" where
  "ci_prefix p t =
     (length p \<le> length t \<and>
      list_all2 (\<lambda>a b. toLowerCase_char a = toLowerCase_char b) p (take (length p) t))"

text \<open>Concrete states and inputs on which the theorems below are instantiated.\<close>

definition exampleArea :: "(int \<times> int) option" where
  "exampleArea = Some (800, 600)"

definition exampleRandom :: Random where
  "exampleRandom = \<lparr> r_id = ''k3j9x0q1z'', r_word = 0, r_x = 0 \<rparr>"

definition liveWord :: "string \<Rightarrow> real \<Rightarrow> Word" where
  "liveWord t y0 = \<lparr> w_id = t, w_text = t, w_x = 0, w_y = y0, w_speed = 3 / 2, w_matched = [] \<rparr>"

definition playing :: "int \<Rightarrow> int \<Rightarrow> Word list \<Rightarrow> string \<Rightarrow> GameState" where
  "playing sc lv ws inp =
     \<lparr> isPlaying = True, isGameOver = False, score = sc, level = sc div 1000 + 1, lives = lv,
       words = ws, currentInput = inp \<rparr>"

definition hitState :: GameState where
  "hitState = playing 990 3 [liveWord ''dog'' 10, liveWord ''cat'' 20] ''Cat ''"

definition missState :: GameState where
  "missState = playing 30 2 [liveWord ''cat'' 20] ''xyz''"

definition blankState :: GameState where
  "blankState = playing 30 2 [liveWord ''cat'' 20] ''  ''"

definition typingState :: GameState where
  "typingState = playing 0 3 [liveWord ''cat'' 20, liveWord ''dog'' 30, liveWord ''car'' 40] []"

definition arrivalState :: GameState where
  "arrivalState =
     playing 0 3 [liveWord ''cat'' 499, liveWord ''dog'' 100, liveWord ''car'' (997 / 2)] []"





definition spentComponent :: Component where
  "spentComponent =
     \<lparr> gameState = \<lparr> isPlaying = False, isGameOver = True, score = 0, level = 1, lives = 0,
                       words = [], currentInput = ''d'' \<rparr>,
       lastWordSpawnRef = 6003, recentlyUsedWords = [''cat'', ''dog'', ''run''],
       gameLoopRef = Some 4,
       rendered = \<lparr> isPlaying = False, isGameOver = True, score = 0, level = 1, lives = 0,
                      words = [], currentInput = ''d'' \<rparr>,
       frames = [], nextFrameId = 5 \<rparr>"

definition spentToasts :: "toast list" where
  "spentToasts =
     [GameStarted, ReachedBase ''cat'', ReachedBase ''dog'', ReachedBase ''run'', AllLivesLost]"

definition usedComponent :: Component where
  "usedComponent =
     \<lparr> gameState = \<lparr> isPlaying = False, isGameOver = False, score = 0, level = 1, lives = 3,
                       words = [], currentInput = [] \<rparr>,
       lastWordSpawnRef = 2001, recentlyUsedWords = [''cat''], gameLoopRef = Some 2,
       rendered = \<lparr> isPlaying = False, isGameOver = False, score = 0, level = 1, lives = 3,
                      words = [], currentInput = [] \<rparr>,
       frames = [], nextFrameId = 3 \<rparr>"

definition fullRecent :: "string list" where
  "fullRecent = take 20 (WORD_LISTS ! 0)"

definition exhaustedLive :: "Word list" where
  "exhaustedLive = map (\<lambda>t. liveWord t 0) (take 10 (WORD_LISTS ! 3))"

definition exhaustedRecent :: "string list" where
  "exhaustedRecent = drop 10 (WORD_LISTS ! 3)"

section \<open>Facts about the word bank\<close>

lemma index_Some_mem: "index xs i = Some v \<Longrightarrow> v \<in> set xs"
  by (auto simp: index_def split: if_splits)

text \<open>The main path: a candidate is left after both exclusions.\<close>

lemma getRandomWord_main:
  assumes wl: "wordList lvl = Some wl"
    and av: "availableWords wl ws ru \<noteq> []"
    and res: "getRandomWord lvl ws ru r = Inr (res, recent)"
    and d: "distinct ru"
  shows "\<exists>w. res = Some w \<and> w \<in> set (availableWords wl ws ru) \<and>
             recent = (if 20 \<le> length ru then tl ru else ru) @ [toLowerCase w]"
proof -
  from wl av res obtain w where
    w: "index (availableWords wl ws ru) \<lfloor>r * real (length (availableWords wl ws ru))\<rfloor> = Some w"
    and r1: "res = Some w"
    and r2: "recent = (let added = Set_add (toLowerCase w) ru in
                 if length added > 20 then
                   (case added of [] \<Rightarrow> added | firstWord # rest \<Rightarrow> Set_delete firstWord added)
                 else added)"
    by (auto simp: getRandomWord_def Let_def split: option.splits)
  from w have mem: "w \<in> set (availableWords wl ws ru)" by (rule index_Some_mem)
  then have notin: "toLowerCase w \<notin> set ru" by (simp add: availableWords_def)
  then have added: "Set_add (toLowerCase w) ru = ru @ [toLowerCase w]"
    by (simp add: Set_add_def)
  show ?thesis
  proof (cases "20 \<le> length ru")
    case True
    then obtain a rest where ru: "ru = a # rest" by (cases ru) auto
    with d notin have "removeAll a (ru @ [toLowerCase w]) = rest @ [toLowerCase w]"
      by auto
    with True r1 r2 mem added ru show ?thesis
      by (auto simp: Set_delete_def)
  next
    case False
    with r1 r2 mem added show ?thesis by auto
  qed
qed

text \<open>The fallback path: no candidate is left, the memory is cleared.\<close>

lemma getRandomWord_fallback:
  assumes wl: "wordList lvl = Some wl"
    and av: "availableWords wl ws ru = []"
  shows "getRandomWord lvl ws ru r =
           Inr (index (freshAvailableWords wl ws)
                  \<lfloor>r * real (length (freshAvailableWords wl ws))\<rfloor>, [])"
  using wl av by (simp add: getRandomWord_def Let_def)

lemma getRandomWord_recent_inv:
  assumes res: "getRandomWord lvl ws ru r = Inr (res, recent)"
    and d: "distinct ru" and len: "length ru \<le> 20"
  shows "distinct recent \<and> length recent \<le> 20"
proof -
  from res obtain wl where wl: "wordList lvl = Some wl"
    by (auto simp: getRandomWord_def split: option.splits)
  show ?thesis
  proof (cases "availableWords wl ws ru = []")
    case True
    with wl res show ?thesis by (simp add: getRandomWord_fallback)
  next
    case False
    from getRandomWord_main[OF wl False res d] obtain w where
      mem: "w \<in> set (availableWords wl ws ru)"
      and rec: "recent = (if 20 \<le> length ru then tl ru else ru) @ [toLowerCase w]"
      by blast
    from mem have notin: "toLowerCase w \<notin> set ru" by (simp add: availableWords_def)
    show ?thesis
    proof (cases "20 \<le> length ru")
      case True
      with len have l20: "length ru = 20" by simp
      then have "ru \<noteq> []" by auto
      with d notin have "distinct (tl ru @ [toLowerCase w])"
        by (cases ru) auto
      with True rec l20 show ?thesis by simp
    next
      case False
      with rec d notin show ?thesis by simp
    qed
  qed
qed

lemma getRandomWord_not_live:
  assumes "getRandomWord lvl ws ru r = Inr (Some w, recent)"
  shows "toLowerCase w \<notin> set (currentWordTexts ws)"
proof -
  from assms obtain wl where wl: "wordList lvl = Some wl"
    by (auto simp: getRandomWord_def split: option.splits)
  show ?thesis
  proof (cases "availableWords wl ws ru = []")
    case True
    with wl assms have "index (freshAvailableWords wl ws)
        \<lfloor>r * real (length (freshAvailableWords wl ws))\<rfloor> = Some w"
      by (simp add: getRandomWord_fallback)
    then have "w \<in> set (freshAvailableWords wl ws)" by (rule index_Some_mem)
    then show ?thesis by (simp add: freshAvailableWords_def)
  next
    case False
    with wl assms have "index (availableWords wl ws ru)
        \<lfloor>r * real (length (availableWords wl ws ru))\<rfloor> = Some w"
      by (auto simp: getRandomWord_def Let_def split: option.splits)
    then have "w \<in> set (availableWords wl ws ru)" by (rule index_Some_mem)
    then show ?thesis by (simp add: availableWords_def)
  qed
qed

section \<open>Facts about strings\<close>

text \<open>
  The test of the source, \<open>startsWith\<close> on the two lower-cased strings, is the
  specification's case-insensitive prefix.
\<close>

lemma startsWith_toLowerCase:
  "startsWith (toLowerCase t) (toLowerCase p) = ci_prefix p t"
proof (cases "length p \<le> length t")
  case True
  have "(take (length p) (map toLowerCase_char t) = map toLowerCase_char p) =
        list_all2 (\<lambda>a b. toLowerCase_char a = toLowerCase_char b) p (take (length p) t)"
    using True
    by (auto simp: list_all2_conv_all_nth list_eq_iff_nth_eq min_def)
  with True show ?thesis
    by (simp add: startsWith_def toLowerCase_def ci_prefix_def)
next
  case False
  then have "length (take (length p) (map toLowerCase_char t)) \<noteq> length (map toLowerCase_char p)"
    by simp
  then have "take (length p) (map toLowerCase_char t) \<noteq> map toLowerCase_char p"
    by metis
  with False show ?thesis
    by (simp add: startsWith_def toLowerCase_def ci_prefix_def)
qed

text \<open>The no-break space is trimmed like the space.\<close>

lemma trim_no_break_space:
  "trim (''cat'' @ [CHR 0xA0]) = ''cat''" "trim [CHR 0xA0, CHR '' ''] = []"
  by code_simp+

section \<open>Facts about one frame\<close>

lemma spawnWord_state:
  assumes "spawnWord area rnd c = Inr c1"
  shows "isPlaying (gameState c1) = isPlaying (gameState c) \<and>
         isGameOver (gameState c1) = isGameOver (gameState c) \<and>
         lives (gameState c1) = lives (gameState c) \<and>
         lastWordSpawnRef c1 = lastWordSpawnRef c \<and>
         gameLoopRef c1 = gameLoopRef c \<and> rendered c1 = rendered c \<and>
         frames c1 = frames c \<and> nextFrameId c1 = nextFrameId c"
  using assms
  by (auto simp: spawnWord_def Let_def split: option.splits sum.splits prod.splits)

lemma spawnWord_recent:
  assumes "spawnWord area rnd c = Inr c1"
    and "distinct (recentlyUsedWords c)" and "length (recentlyUsedWords c) \<le> 20"
  shows "distinct (recentlyUsedWords c1) \<and> length (recentlyUsedWords c1) \<le> 20"
  using assms
  by (auto simp: spawnWord_def Let_def split: option.splits sum.splits prod.splits
           dest: getRandomWord_recent_inv)

lemma updateWords_flags:
  assumes "updateWords area prev = (s', ts)"
    and "\<not> (isPlaying prev \<and> isGameOver prev)"
  shows "\<not> (isPlaying s' \<and> isGameOver s')"
  using assms
  by (auto simp: updateWords_def Let_def split: option.splits prod.splits if_splits)


text \<open>
  A run of \<open>gameLoop\<close> is an optional spawn, the update of the words, and the request
  of the next frame when the closure was made while playing.
\<close>

lemma gameLoop_parts:
  assumes "gameLoop now area rnd g c = Inr (c', ts)"
  shows "\<exists>c1 s'. (c1 = c \<or>
             (\<exists>c0. spawnWord area rnd c = Inr c0 \<and> c1 = c0\<lparr> lastWordSpawnRef := now \<rparr>)) \<and>
           updateWords area (gameState c1) = (s', ts) \<and>
           c' = (if isPlaying g then requestAnimationFrame g (c1\<lparr> gameState := s' \<rparr>)
                 else c1\<lparr> gameState := s' \<rparr>)"
  using assms
  by (auto simp: gameLoop_def Let_def split: if_splits sum.splits prod.splits)

lemma gameLoop_flags:
  assumes "gameLoop now area rnd g c = Inr (c', ts)"
    and "\<not> (isPlaying (gameState c) \<and> isGameOver (gameState c))"
  shows "\<not> (isPlaying (gameState c') \<and> isGameOver (gameState c'))"
proof -
  from gameLoop_parts[OF assms(1)] obtain c1 s' where
    c1: "c1 = c \<or> (\<exists>c0. spawnWord area rnd c = Inr c0 \<and> c1 = c0\<lparr> lastWordSpawnRef := now \<rparr>)"
    and up: "updateWords area (gameState c1) = (s', ts)"
    and eq: "c' = (if isPlaying g then requestAnimationFrame g (c1\<lparr> gameState := s' \<rparr>)
                 else c1\<lparr> gameState := s' \<rparr>)"
    by blast
  from eq have c': "gameState c' = s'" by (simp add: requestAnimationFrame_def)
  from c1 assms(2) have "\<not> (isPlaying (gameState c1) \<and> isGameOver (gameState c1))"
    by (auto dest: spawnWord_state)
  with up c' show ?thesis by (auto dest: updateWords_flags)
qed

lemma gameLoop_recent:
  assumes "gameLoop now area rnd g c = Inr (c', ts)"
    and "distinct (recentlyUsedWords c)" and "length (recentlyUsedWords c) \<le> 20"
  shows "distinct (recentlyUsedWords c') \<and> length (recentlyUsedWords c') \<le> 20"
proof -
  from gameLoop_parts[OF assms(1)] obtain c1 s' where
    c1: "c1 = c \<or> (\<exists>c0. spawnWord area rnd c = Inr c0 \<and> c1 = c0\<lparr> lastWordSpawnRef := now \<rparr>)"
    and eq: "c' = (if isPlaying g then requestAnimationFrame g (c1\<lparr> gameState := s' \<rparr>)
                 else c1\<lparr> gameState := s' \<rparr>)"
    by blast
  from eq have c': "recentlyUsedWords c' = recentlyUsedWords c1"
    by (simp add: requestAnimationFrame_def)
  from c1 assms(2,3)
  have "distinct (recentlyUsedWords c1) \<and> length (recentlyUsedWords c1) \<le> 20"
    by (auto dest: spawnWord_recent)
  with c' show ?thesis by simp
qed


lemma runFrames_flags:
  "runFrames now area rnd fs c = Inr (c', ts) \<Longrightarrow>
     \<not> (isPlaying (gameState c) \<and> isGameOver (gameState c)) \<Longrightarrow>
     \<not> (isPlaying (gameState c') \<and> isGameOver (gameState c'))"
proof (induction fs arbitrary: c ts)
  case Nil
  then show ?case by simp
next
  case (Cons f fs)
  from Cons.prems(1) obtain c1 t1 t2 where
    g: "gameLoop now area rnd (snd f) c = Inr (c1, t1)"
    and r: "runFrames now area rnd fs c1 = Inr (c', t2)"
    by (auto split: sum.splits prod.splits)
  from gameLoop_flags[OF g Cons.prems(2)] Cons.IH[OF r] show ?case by blast
qed

lemma runFrames_recent:
  "runFrames now area rnd fs c = Inr (c', ts) \<Longrightarrow>
     distinct (recentlyUsedWords c) \<and> length (recentlyUsedWords c) \<le> 20 \<Longrightarrow>
     distinct (recentlyUsedWords c') \<and> length (recentlyUsedWords c') \<le> 20"
proof (induction fs arbitrary: c ts)
  case Nil
  then show ?case by simp
next
  case (Cons f fs)
  from Cons.prems(1) obtain c1 t1 t2 where
    g: "gameLoop now area rnd (snd f) c = Inr (c1, t1)"
    and r: "runFrames now area rnd fs c1 = Inr (c', t2)"
    by (auto split: sum.splits prod.splits)
  from gameLoop_recent[OF g] Cons.prems(2) Cons.IH[OF r] show ?case by blast
qed

section \<open>Facts about the commit\<close>

lemma commit_state:
  "gameState (commit c) = gameState c \<and> recentlyUsedWords (commit c) = recentlyUsedWords c \<and>
   lastWordSpawnRef (commit c) = lastWordSpawnRef c \<and> rendered (commit c) = gameState c"
  by (simp add: commit_def Let_def useEffect_def cleanup_def requestAnimationFrame_def
        cancelAnimationFrame_def split: option.splits)


section \<open>Facts about runs of events\<close>

lemma step_flags:
  assumes "step e c = Inr (c', ts)"
    and "\<not> (isPlaying (gameState c) \<and> isGameOver (gameState c))"
  shows "\<not> (isPlaying (gameState c') \<and> isGameOver (gameState c'))"
proof (cases e)
  case (Frame now area rnd)
  with assms obtain c1 where
    r: "runFrames now area rnd (frames c) (c\<lparr> frames := [] \<rparr>) = Inr (c1, ts)"
    and c': "c' = commit c1"
    by (auto split: sum.splits prod.splits)
  from runFrames_flags[OF r] assms(2) c' show ?thesis by (simp add: commit_state)
next
  case (KeyPress key)
  with assms show ?thesis
    by (auto simp: handleKeyPress_def Let_def commit_state
          split: if_splits option.splits prod.splits)
qed (use assms in \<open>auto simp: startGame_def resetGame_def handleInputChange_def Let_def
       commit_state\<close>)

lemma step_recent:
  assumes "step e c = Inr (c', ts)"
    and "distinct (recentlyUsedWords c) \<and> length (recentlyUsedWords c) \<le> 20"
  shows "distinct (recentlyUsedWords c') \<and> length (recentlyUsedWords c') \<le> 20"
proof (cases e)
  case (Frame now area rnd)
  with assms obtain c1 where
    r: "runFrames now area rnd (frames c) (c\<lparr> frames := [] \<rparr>) = Inr (c1, ts)"
    and c': "c' = commit c1"
    by (auto split: sum.splits prod.splits)
  from runFrames_recent[OF r] assms(2) c' show ?thesis by (simp add: commit_state)
qed (use assms in \<open>auto simp: startGame_def commit_state split: prod.splits\<close>)



lemma run_flags:
  "run es c = Inr (c', ts) \<Longrightarrow> \<not> (isPlaying (gameState c) \<and> isGameOver (gameState c)) \<Longrightarrow>
     \<not> (isPlaying (gameState c') \<and> isGameOver (gameState c'))"
proof (induction es arbitrary: c ts)
  case Nil
  then show ?case by simp
next
  case (Cons e es)
  from Cons.prems(1) obtain c1 t1 t2 where
    s: "step e c = Inr (c1, t1)" and r: "run es c1 = Inr (c', t2)"
    by (auto split: sum.splits prod.splits)
  from step_flags[OF s Cons.prems(2)] Cons.IH[OF r] show ?case by blast
qed

lemma run_recent:
  "run es c = Inr (c', ts) \<Longrightarrow>
     distinct (recentlyUsedWords c) \<and> length (recentlyUsedWords c) \<le> 20 \<Longrightarrow>
     distinct (recentlyUsedWords c') \<and> length (recentlyUsedWords c') \<le> 20"
proof (induction es arbitrary: c ts)
  case Nil
  then show ?case by simp
next
  case (Cons e es)
  from Cons.prems(1) obtain c1 t1 t2 where
    s: "step e c = Inr (c1, t1)" and r: "run es c1 = Inr (c', t2)"
    by (auto split: sum.splits prod.splits)
  from step_recent[OF s Cons.prems(2)] Cons.IH[OF r] show ?case by blast
qed



section \<open>Scoring a hit\<close>

text \<open>
  C1. A confirmation (the key \<open>Enter\<close> on a non-blank input) that finds the live word
  \<open>w\<close> awards \<open>length (text w) * 10 * level\<close> points, with the level the handler reads
  at the time of the hit; the new score is the old score plus those points; the new
  level is \<open>floor (new score / 1000) + 1\<close>; and a level-up toast, carrying the new level,
  is emitted exactly when the new level exceeds the old one.
\<close>

theorem hit_scoring:
  assumes "key = ''Enter''" and "trim (currentInput g) \<noteq> []"
    and "find (isTarget g) (words g) = Some w"
    and "handleKeyPress key g prev = (s', ts)"
  shows "score s' = score prev + int (length (w_text w)) * 10 * level g \<and>
         level s' = score s' div 1000 + 1 \<and>
         Points (int (length (w_text w)) * 10 * level g) \<in> set ts \<and>
         (LevelUp (level s') \<in> set ts \<longleftrightarrow> level s' > level prev) \<and>
         (\<forall>n. LevelUp n \<in> set ts \<longrightarrow> n = level s')"
  using assms by (auto simp: handleKeyPress_def Let_def split: if_splits)

theorem hit_scoring_witness:
  "trim (currentInput hitState) \<noteq> [] \<and>
   find (isTarget hitState) (words hitState) = Some (liveWord ''cat'' 20) \<and>
   score hitState = 990 \<and> level hitState = 1 \<and>
   score (fst (handleKeyPress ''Enter'' hitState hitState)) = 1020 \<and>
   level (fst (handleKeyPress ''Enter'' hitState hitState)) = 2 \<and>
   Points 30 \<in> set (snd (handleKeyPress ''Enter'' hitState hitState)) \<and>
   LevelUp 2 \<in> set (snd (handleKeyPress ''Enter'' hitState hitState))"
proof -
  have h1: "trim (currentInput hitState) \<noteq> []" by code_simp
  have h2: "find (isTarget hitState) (words hitState) = Some (liveWord ''cat'' 20)"
    by code_simp
  have h3: "handleKeyPress ''Enter'' hitState hitState =
      (fst (handleKeyPress ''Enter'' hitState hitState),
       snd (handleKeyPress ''Enter'' hitState hitState))"
    by simp
  have v: "score hitState = 990" "level hitState = 1" "length (w_text (liveWord ''cat'' 20)) = 3"
    by (simp_all add: hitState_def playing_def liveWord_def)
  let ?s = "fst (handleKeyPress ''Enter'' hitState hitState)"
  let ?ts = "snd (handleKeyPress ''Enter'' hitState hitState)"
  note all = hit_scoring[OF refl h1 h2 h3]
  from all v have sc: "score ?s = 1020" by simp
  from all have lv: "level ?s = score ?s div 1000 + 1" by blast
  from all v have pt: "Points 30 \<in> set ?ts" by simp
  from all have lu: "(LevelUp (level ?s) \<in> set ?ts) = (level ?s > level hitState)" by blast
  from sc lv have l2: "level ?s = 2" by simp
  from lu have "LevelUp 2 \<in> set ?ts" unfolding l2 v by simp
  with h1 h2 v sc l2 pt show ?thesis by simp
qed

section \<open>Game over\<close>



section \<open>Motion and arrival at the base\<close>

text \<open>
  C3. With the play area measured and lives not negative, one update of the words
  lowers lives by exactly the number of words whose advanced \<open>y\<close> (the old \<open>y\<close> plus the
  word's speed) is at least \<open>gameHeight - 100\<close>, clamped below at 0. Every word that
  stays live is a word from before with \<open>y\<close> increased by exactly its speed, and lies
  above the base line, so every arrived word is removed in that update. Unless the
  update ends the game (then the words are cleared), the words that stay are exactly
  the advanced words that have not arrived, in their order.
\<close>

theorem updateWords_moves_and_removes:
  assumes "0 \<le> lives prev"
    and "updateWords (Some (gameWidth, gameHeight)) prev = (s', ts)"
  shows "lives s' = max 0 (lives prev - int (length
           (filter (\<lambda>w. w_y w + w_speed w \<ge> real_of_int gameHeight - 100) (words prev)))) \<and>
         (\<forall>w' \<in> set (words s'). w_y w' < real_of_int gameHeight - 100 \<and>
            (\<exists>w \<in> set (words prev). w' = w\<lparr> w_y := w_y w + w_speed w \<rparr>)) \<and>
         words s' =
           (if filter (\<lambda>w. w_y w + w_speed w \<ge> real_of_int gameHeight - 100) (words prev) \<noteq> [] \<and>
               lives s' = 0
            then []
            else map (\<lambda>w. w\<lparr> w_y := w_y w + w_speed w \<rparr>)
                   (filter (\<lambda>w. w_y w + w_speed w < real_of_int gameHeight - 100) (words prev)))"
proof -
  let ?thr = "real_of_int gameHeight - 100"
  let ?move = "\<lambda>w. w\<lparr> w_y := w_y w + w_speed w \<rparr>"
  have atBase: "wordsAtBase gameHeight prev =
      map ?move (filter (\<lambda>w. w_y w + w_speed w \<ge> ?thr) (words prev))"
    by (simp add: wordsAtBase_def updatedWords_def filter_map comp_def)
  have active: "activeWords gameHeight prev =
      map ?move (filter (\<lambda>w. w_y w + w_speed w < ?thr) (words prev))"
    by (simp add: activeWords_def updatedWords_def filter_map comp_def)
  have bound: "\<forall>w' \<in> set (activeWords gameHeight prev). w_y w' < ?thr \<and>
            (\<exists>w \<in> set (words prev). w' = ?move w)"
    unfolding active by auto
  let ?n = "length (filter (\<lambda>w. w_y w + w_speed w \<ge> ?thr) (words prev))"
  have len: "length (wordsAtBase gameHeight prev) = ?n" by (simp add: atBase)
  show ?thesis
  proof (cases "?n = 0")
    case True
    with assms len have "s' = prev\<lparr> words := activeWords gameHeight prev \<rparr>"
      by (auto simp: updateWords_def)
    with True assms(1) bound active show ?thesis by simp
  next
    case False
    with len have ne: "wordsAtBase gameHeight prev \<noteq> []" by auto
    from False have ne': "filter (\<lambda>w. w_y w + w_speed w \<ge> ?thr) (words prev) \<noteq> []" by simp
    show ?thesis
    proof (cases "lives prev - int ?n \<le> 0")
      case True
      with ne assms len
      have "s' = prev\<lparr> isPlaying := False, isGameOver := True, words := [], lives := 0 \<rparr>"
        by (auto simp: updateWords_def Let_def)
      with True ne' show ?thesis by simp
    next
      case le: False
      with ne assms len have "s' = prev\<lparr> words := activeWords gameHeight prev,
           lives := max 0 (lives prev - int ?n) \<rparr>"
        by (auto simp: updateWords_def Let_def)
      with le bound active show ?thesis by simp
    qed
  qed
qed

theorem updateWords_moves_and_removes_witness:
  "lives arrivalState = 3 \<and>
   updateWords (Some (800, 600)) arrivalState =
     (arrivalState\<lparr> words := [liveWord ''dog'' (203 / 2)], lives := 1 \<rparr>,
      [ReachedBase ''cat'', ReachedBase ''car'']) \<and>
   length (filter (\<lambda>w. w_y w + w_speed w \<ge> real_of_int 600 - 100) (words arrivalState)) = 2"
proof -
  have h1: "0 \<le> lives arrivalState" and v: "lives arrivalState = 3"
    by (simp_all add: arrivalState_def playing_def)
  have h2: "updateWords (Some (800, 600)) arrivalState =
     (arrivalState\<lparr> words := [liveWord ''dog'' (203 / 2)], lives := 1 \<rparr>,
      [ReachedBase ''cat'', ReachedBase ''car''])"
    by code_simp
  from updateWords_moves_and_removes[OF h1 h2]
  have "lives (arrivalState\<lparr> words := [liveWord ''dog'' (203 / 2)], lives := 1 \<rparr>) =
      max 0 (lives arrivalState - int (length
        (filter (\<lambda>w. w_y w + w_speed w \<ge> real_of_int 600 - 100) (words arrivalState))))"
    by blast
  with v have "length
        (filter (\<lambda>w. w_y w + w_speed w \<ge> real_of_int 600 - 100) (words arrivalState)) = 2"
    by (simp add: max_def split: if_splits)
  with v h2 show ?thesis by simp
qed

section \<open>Highlighting the typed prefix\<close>

text \<open>
  C4. \<open>handleInputChange\<close> stores the input and gives every live word, at once, a
  matched prefix that is exactly the input text when the input is non-empty and a
  case-insensitive prefix of the word's text, and the empty string otherwise; nothing
  else changes.
\<close>

theorem handleInputChange_matched:
  "handleInputChange v prev =
     prev\<lparr> currentInput := v,
           words := map (\<lambda>word. word\<lparr> w_matched :=
                           (if v \<noteq> [] \<and> ci_prefix v (w_text word) then v else []) \<rparr>)
                        (words prev) \<rparr>"
  by (simp add: handleInputChange_def startsWith_toLowerCase cong: if_cong)

theorem handleInputChange_matched_witness:
  "map w_matched (words (handleInputChange ''Ca'' typingState)) = [''Ca'', [], ''Ca''] \<and>
   map w_text (words (handleInputChange ''Ca'' typingState)) = [''cat'', ''dog'', ''car''] \<and>
   map w_matched (words (handleInputChange [] typingState)) = [[], [], []]"
proof -
  have "ci_prefix ''Ca'' ''cat''" "\<not> ci_prefix ''Ca'' ''dog''" "ci_prefix ''Ca'' ''car''"
    by code_simp+
  then show ?thesis
    unfolding handleInputChange_matched
    by (simp add: typingState_def playing_def liveWord_def)
qed

section \<open>Confirming without a match\<close>

text \<open>
  C5 (as amended). For a confirmation (the key \<open>Enter\<close>) whose input is not blank:
  the input text is reset to empty, on a hit as on a miss; when the trimmed,
  lower-cased input equals the lower-cased text of no live word, the only toast is the
  error toast for the miss and the state is otherwise unchanged (words, score, level,
  lives and flags as before); on a hit every toast is a success toast, so the miss
  signal is distinct from success. A confirmation whose input is blank (empty after
  trimming) does nothing: no toast, and the state, with the input as typed, is as
  before.
\<close>

theorem confirm_clears_input:
  assumes "key = ''Enter''"
  shows "(trim (currentInput g) = [] \<longrightarrow> handleKeyPress key g prev = (prev, [])) \<and>
         (trim (currentInput g) \<noteq> [] \<longrightarrow>
            currentInput (fst (handleKeyPress key g prev)) = [] \<and>
            ((\<forall>w \<in> set (words g). \<not> isTarget g w) \<longrightarrow>
               handleKeyPress key g prev = (prev\<lparr> currentInput := [] \<rparr>, [WordNotFound]) \<and>
               kind_of WordNotFound = Error) \<and>
            ((\<exists>w \<in> set (words g). isTarget g w) \<longrightarrow>
               (\<forall>t \<in> set (snd (handleKeyPress key g prev)). kind_of t = Success)))"
proof (cases "trim (currentInput g) = []")
  case True
  then show ?thesis by (simp add: handleKeyPress_def)
next
  case False
  show ?thesis
  proof (cases "find (isTarget g) (words g)")
    case None
    then have "\<forall>w \<in> set (words g). \<not> isTarget g w" by (simp add: find_None_iff)
    with None False assms show ?thesis by (simp add: handleKeyPress_def)
  next
    case (Some w)
    then have "w \<in> set (words g) \<and> isTarget g w"
      by (auto simp: find_Some_iff)
    with Some False assms show ?thesis by (auto simp: handleKeyPress_def Let_def)
  qed
qed

theorem confirm_clears_input_witness:
  "trim (currentInput missState) \<noteq> [] \<and>
   find (isTarget missState) (words missState) = None \<and>
   handleKeyPress ''Enter'' missState missState =
     (missState\<lparr> currentInput := [] \<rparr>, [WordNotFound]) \<and>
   trim (currentInput hitState) \<noteq> [] \<and>
   find (isTarget hitState) (words hitState) = Some (liveWord ''cat'' 20) \<and>
   currentInput (fst (handleKeyPress ''Enter'' hitState hitState)) = [] \<and>
   map kind_of (snd (handleKeyPress ''Enter'' hitState hitState)) = [Success, Success] \<and>
   trim (currentInput blankState) = [] \<and>
   handleKeyPress ''Enter'' blankState missState = (missState, [])"
proof -
  have m1: "trim (currentInput missState) \<noteq> []" by code_simp
  have m2: "find (isTarget missState) (words missState) = None" by code_simp
  then have m3: "\<forall>w \<in> set (words missState). \<not> isTarget missState w"
    by (simp add: find_None_iff)
  have h1: "trim (currentInput hitState) \<noteq> []" by code_simp
  have h2: "find (isTarget hitState) (words hitState) = Some (liveWord ''cat'' 20)"
    by code_simp
  have h3: "map kind_of (snd (handleKeyPress ''Enter'' hitState hitState)) = [Success, Success]"
    by code_simp
  have b1: "trim (currentInput blankState) = []" by code_simp
  from confirm_clears_input[OF refl, of missState missState] m1 m3
  have miss: "handleKeyPress ''Enter'' missState missState =
     (missState\<lparr> currentInput := [] \<rparr>, [WordNotFound])"
    by blast
  from confirm_clears_input[OF refl, of hitState hitState] h1
  have hit: "currentInput (fst (handleKeyPress ''Enter'' hitState hitState)) = []"
    by blast
  from confirm_clears_input[OF refl, of blankState missState] b1
  have blank: "handleKeyPress ''Enter'' blankState missState = (missState, [])"
    by blast
  from m1 m2 h1 h2 h3 b1 miss hit blank show ?thesis by blast
qed

text \<open>
  The claim C5 as stated fails for a blank input: the guard of \<open>handleKeyPress\<close> skips
  the whole confirmation. With two spaces typed, no live word matches, and \<open>Enter\<close>
  emits no toast and leaves the input as it is.
\<close>

theorem blank_confirm_counterexample:
  "find (isTarget blankState) (words blankState) = None \<and>
   handleKeyPress ''Enter'' blankState blankState = (blankState, []) \<and>
   currentInput (fst (handleKeyPress ''Enter'' blankState blankState)) = ''  ''"
  by code_simp

section \<open>The word bank avoids live words\<close>

text \<open>
  C6. For every level, every list of live words, every memory and every random draw, a
  word returned by \<open>getRandomWord\<close> has a lower-case form that is the lower-case text of
  no live word. This holds on the main path, which is what the claim asks, and on the
  fallback path as well, whose filter keeps the live words excluded.
\<close>

theorem getRandomWord_avoids_live:
  assumes "getRandomWord lvl currentWords recent rnd = Inr (Some w, recent')"
  shows "toLowerCase w \<notin> set (map (\<lambda>x. toLowerCase (w_text x)) currentWords)"
  using getRandomWord_not_live[OF assms] by (simp add: currentWordTexts_def)

theorem getRandomWord_avoids_live_witness:
  "getRandomWord 1 [liveWord ''cat'' 0] [] 0 = Inr (Some ''dog'', [''dog'']) \<and>
   toLowerCase ''dog'' \<notin> set (map (\<lambda>x. toLowerCase (w_text x)) [liveWord ''cat'' 0])"
proof -
  have h: "getRandomWord 1 [liveWord ''cat'' 0] [] 0 = Inr (Some ''dog'', [''dog''])"
    by code_simp
  from getRandomWord_avoids_live[OF h] h show ?thesis by blast
qed

section \<open>The memory of recently used words\<close>

text \<open>
  C7. In every state the component reaches from its initial state, by any events, the
  memory of recently used words holds at most 20 entries (and no entry twice). And for
  every such memory, a call of \<open>getRandomWord\<close> that finds a candidate returns it and
  appends its lower-case form as the newest entry; when the memory already held 20
  entries, so that the insertion makes it exceed 20, exactly the oldest entry (the
  head) is evicted and the others keep their order.
\<close>

theorem recentlyUsedWords_bounded_fifo:
  "(run es initial = Inr (c, ts) \<longrightarrow>
      length (recentlyUsedWords c) \<le> 20 \<and> distinct (recentlyUsedWords c)) \<and>
   (length recent \<le> 20 \<and> distinct recent \<and> wordList lvl = Some wl \<and>
    availableWords wl currentWords recent \<noteq> [] \<and>
    getRandomWord lvl currentWords recent rnd = Inr (res, recent') \<longrightarrow>
      (\<exists>w. res = Some w \<and>
           recent' = (if length recent = 20 then tl recent else recent) @ [toLowerCase w]))"
proof (intro conjI impI)
  assume "run es initial = Inr (c, ts)"
  from run_recent[OF this] show "length (recentlyUsedWords c) \<le> 20"
    and "distinct (recentlyUsedWords c)"
    by (simp_all add: initial_def)
next
  assume a: "length recent \<le> 20 \<and> distinct recent \<and> wordList lvl = Some wl \<and>
    availableWords wl currentWords recent \<noteq> [] \<and>
    getRandomWord lvl currentWords recent rnd = Inr (res, recent')"
  then have "\<exists>w. res = Some w \<and> w \<in> set (availableWords wl currentWords recent) \<and>
             recent' = (if 20 \<le> length recent then tl recent else recent) @ [toLowerCase w]"
    using getRandomWord_main[of lvl wl currentWords recent rnd res recent'] by blast
  moreover from a have "(20 \<le> length recent) = (length recent = 20)" by auto
  ultimately show "\<exists>w. res = Some w \<and>
           recent' = (if length recent = 20 then tl recent else recent) @ [toLowerCase w]"
    by auto
qed

theorem recentlyUsedWords_bounded_fifo_witness:
  "run [Start 0, Frame 2001 exampleArea exampleRandom, Reset] initial =
     Inr (usedComponent, [GameStarted]) \<and>
   length (recentlyUsedWords usedComponent) \<le> 20 \<and>
   length fullRecent = 20 \<and> distinct fullRecent \<and>
   availableWords (WORD_LISTS ! 0) [] fullRecent \<noteq> [] \<and>
   getRandomWord 1 [] fullRecent 0 = Inr (Some ''in'', tl fullRecent @ [''in''])"
proof -
  have r: "run [Start 0, Frame 2001 exampleArea exampleRandom, Reset] initial =
     Inr (usedComponent, [GameStarted])"
    by code_simp
  have f: "length fullRecent = 20" "distinct fullRecent" "wordList 1 = Some (WORD_LISTS ! 0)"
    "availableWords (WORD_LISTS ! 0) [] fullRecent \<noteq> []"
    by code_simp+
  have g: "getRandomWord 1 [] fullRecent 0 = Inr (Some ''in'', tl fullRecent @ [''in''])"
    by code_simp
  from recentlyUsedWords_bounded_fifo[of "[Start 0, Frame 2001 exampleArea exampleRandom, Reset]"
      usedComponent "[GameStarted]" fullRecent 1 "WORD_LISTS ! 0" "[]" 0 "Some ''in''"
      "tl fullRecent @ [''in'']"] r f g
  show ?thesis by simp
qed

text \<open>
  C8. The claim asks that every returned word is recorded in the memory, on the
  fallback path too. The fallback path of \<open>getRandomWord\<close> returns its word early,
  without the insertion that the main path makes: with ten words of the last tier
  live and the other twenty in the memory, the call returns \<open>investigation\<close> and an
  empty memory.
\<close>

theorem fallback_skips_insertion:
  "availableWords (WORD_LISTS ! 3) exhaustedLive exhaustedRecent = [] \<and>
   length exhaustedRecent = 20 \<and>
   getRandomWord 4 exhaustedLive exhaustedRecent 0 = Inr (Some ''investigation'', []) \<and>
   toLowerCase ''investigation'' \<notin> set (snd (projr (getRandomWord 4 exhaustedLive exhaustedRecent 0)))"
  by code_simp

section \<open>Session start\<close>

text \<open>
  C9 (as amended). \<open>startGame\<close> always produces a playing state with score 0, level 1,
  three lives, no words and empty input, and sets the time of the last spawn to
  \<open>now\<close>; the memory of recently used words is left as it was (and so is what the
  host holds: the render, the frames and their ids).
\<close>

theorem startGame_resets_state_keeps_recent:
  "startGame now c =
     (\<lparr> gameState = \<lparr> isPlaying = True, isGameOver = False, score = 0, level = 1,
                       lives = 3, words = [], currentInput = [] \<rparr>,
        lastWordSpawnRef = now, recentlyUsedWords = recentlyUsedWords c,
        gameLoopRef = gameLoopRef c, rendered = rendered c, frames = frames c,
        nextFrameId = nextFrameId c \<rparr>,
      [GameStarted])"
  by (simp add: startGame_def)

text \<open>
  The claim C9 as stated fails where it has the memory cleared: after a first session
  that spawned \<open>cat\<close> and was reset, starting again keeps \<open>cat\<close> in the memory.
\<close>

theorem startGame_memory_counterexample:
  "run [Start 0, Frame 2001 exampleArea exampleRandom, Reset] initial =
     Inr (usedComponent, [GameStarted]) \<and>
   recentlyUsedWords (fst (startGame 5000 usedComponent)) = [''cat'']"
  by code_simp

section \<open>The two flags encode three phases\<close>

text \<open>
  C10. In every state reached from the initial state by any sequence of starts,
  resets, frames, input changes and key presses, \<open>isPlaying\<close> and \<open>isGameOver\<close> are not
  both true, so the state is in exactly one of the phases idle, playing and game over.
\<close>

theorem flags_never_both:
  assumes "run es initial = Inr (c, ts)"
  shows "\<not> (isPlaying (gameState c) \<and> isGameOver (gameState c)) \<and>
         phase (gameState c) \<noteq> None"
proof -
  from run_flags[OF assms] have "\<not> (isPlaying (gameState c) \<and> isGameOver (gameState c))"
    by (simp add: initial_def)
  then show ?thesis by (simp add: phase_def)
qed

theorem flags_never_both_witness:
  "run [Start 0, Frame 2001 (Some (800, 0)) exampleRandom, Frame 4002 (Some (800, 0)) exampleRandom,
        InputChange ''d'', Frame 6003 (Some (800, 0)) exampleRandom, Frame 6004 exampleArea exampleRandom]
     initial = Inr (spentComponent, spentToasts) \<and>
   phase (gameState spentComponent) = Some GameOver"
proof -
  have r: "run [Start 0, Frame 2001 (Some (800, 0)) exampleRandom,
        Frame 4002 (Some (800, 0)) exampleRandom,
        InputChange ''d'', Frame 6003 (Some (800, 0)) exampleRandom, Frame 6004 exampleArea exampleRandom]
     initial = Inr (spentComponent, spentToasts)"
    by code_simp
  have p: "phase (gameState spentComponent) = Some GameOver" by code_simp
  from flags_never_both[OF r] r p show ?thesis by blast
qed

end
